theory Spec2Isabelle
  imports Main "HOL-Library.Word"
begin

unbundle bit_operations_syntax

section \<open>Python values used by \<open>hasher.py\<close>\<close>

text \<open>
  A Python \<open>str\<close> is a sequence of Unicode code points and \<open>len\<close> counts code points;
  a \<open>bytes\<close> object is a sequence of octets. Python's \<open>int\<close> is unbounded.
\<close>

type_synonym pystr = "nat list"
type_synonym bytes = "8 word list"

definition py :: "string \<Rightarrow> pystr" where
  \<comment> \<open>a string literal of the source, as its code points\<close>
  "py s = map of_char s"

subsection \<open>Slicing\<close>

text \<open>
  Python clamps slice bounds: a negative bound counts from the end and stops at 0, a
  bound beyond the end stops at the length. \<open>xs[:j]\<close>, \<open>xs[i:]\<close> and \<open>xs[i:j]\<close>
  never raise.
\<close>

definition slice_index :: "nat \<Rightarrow> int \<Rightarrow> nat" where
  "slice_index n i = (if i < 0 then nat (int n + i) else min n (nat i))"

definition slice_to :: "'a list \<Rightarrow> int \<Rightarrow> 'a list" where
  "slice_to xs j = take (slice_index (length xs) j) xs"

definition slice_from :: "'a list \<Rightarrow> int \<Rightarrow> 'a list" where
  "slice_from xs i = drop (slice_index (length xs) i) xs"

definition slice :: "'a list \<Rightarrow> int \<Rightarrow> int \<Rightarrow> 'a list" where
  "slice xs i j =
     (let lo = slice_index (length xs) i; hi = slice_index (length xs) j
      in take (hi - lo) (drop lo xs))"

subsection \<open>Consecutive chunks\<close>

text \<open>
  \<open>chunked n xs\<close> cuts \<open>xs\<close> into consecutive pieces of \<open>n\<close> elements, the last
  one shorter when \<open>n\<close> does not divide the length. It is the vocabulary in which the
  chunk sequences of the two read loops are described.
\<close>

function chunked :: "nat \<Rightarrow> 'a list \<Rightarrow> 'a list list" where
  "chunked n xs = (if n = 0 \<or> xs = [] then [] else take n xs # chunked n (drop n xs))"
  by pat_completeness auto
termination
  by (relation "measure (\<lambda>(n, xs). length xs)") auto

section \<open>\<open>Hasher._shorten_middle_text\<close>\<close>

text \<open>
  \<^verbatim>\<open>
  def _shorten_middle_text(text: str, text_max_len: int = 50) -> str:
      if len(text) <= text_max_len:
          return text
      part = (text_max_len - 3) // 2
      return f"{text[:part]}...{text[-part:]}"
  \<close>
  \<open>//\<close> is floor division, as \<open>div\<close> on \<open>int\<close> is.
\<close>

definition text_max_len_default :: int where
  "text_max_len_default = 50"

definition shorten_middle_text :: "pystr \<Rightarrow> int \<Rightarrow> pystr" where
  "shorten_middle_text text text_max_len =
     (if int (length text) \<le> text_max_len then text
      else let part = (text_max_len - 3) div 2
           in slice_to text part @ py ''...'' @ slice_from text (- part))"

section \<open>Errors and the file system\<close>

text \<open>
  Every exception the two entry points can raise is a value. \<open>ValueError\<close> and
  \<open>FileNotFoundError\<close> carry their message; \<open>UnicodeEncodeError\<close> carries the code
  point that has no UTF-8 encoding; \<open>OverflowError\<close> is the one raised when an integer
  does not fit the index type of the interpreter.
\<close>

datatype error =
    FileNotFoundError pystr
  | ValueError pystr
  | OverflowError
  | UnicodeEncodeError nat

text \<open>
  The file system maps the path of each regular file to the size that \<open>os.path.getsize\<close>
  reports for it and to its contents; the two need not agree (a file of \<open>/proc\<close> reports
  size 0). \<open>os.path.isfile\<close> holds exactly on the domain. Files are readable and do not
  change during a call; I/O errors and the exhaustion of memory are outside the model.
\<close>

type_synonym regular_file = "nat \<times> bytes"
type_synonym filesystem = "pystr \<rightharpoonup> regular_file"

subsection \<open>\<open>str.encode("utf-8")\<close>\<close>

text \<open>
  The strict UTF-8 codec: one to four octets per code point, and \<open>UnicodeEncodeError\<close>
  at the first surrogate (\<open>U+D800\<close> to \<open>U+DFFF\<close>). Numbers from \<open>0x110000\<close> on are
  not code points and occur in no \<open>str\<close>; the model rejects them as well.
\<close>

definition encode_char :: "nat \<Rightarrow> error + bytes" where
  "encode_char c =
     (if c < 0x80 then Inr [of_nat c]
      else if c < 0x800 then Inr [of_nat (0xC0 + c div 64), of_nat (0x80 + c mod 64)]
      else if c < 0x10000 then
        (if 0xD800 \<le> c \<and> c \<le> 0xDFFF then Inl (UnicodeEncodeError c)
         else Inr [of_nat (0xE0 + c div 4096), of_nat (0x80 + c div 64 mod 64),
                   of_nat (0x80 + c mod 64)])
      else if c < 0x110000 then
        Inr [of_nat (0xF0 + c div 262144), of_nat (0x80 + c div 4096 mod 64),
             of_nat (0x80 + c div 64 mod 64), of_nat (0x80 + c mod 64)]
      else Inl (UnicodeEncodeError c))"

fun encode_utf8 :: "pystr \<Rightarrow> error + bytes" where
  "encode_utf8 [] = Inr []"
| "encode_utf8 (c # cs) =
     (case encode_char c of
        Inl e \<Rightarrow> Inl e
      | Inr b \<Rightarrow> (case encode_utf8 cs of Inl e \<Rightarrow> Inl e | Inr bs \<Rightarrow> Inr (b @ bs)))"

subsection \<open>\<open>range(start, stop, step)\<close>\<close>

function range_up :: "int \<Rightarrow> int \<Rightarrow> int \<Rightarrow> int list" where
  "range_up i stop step =
     (if 0 < step \<and> i < stop then i # range_up (i + step) stop step else [])"
  by pat_completeness auto
termination
  by (relation "measure (\<lambda>(i, stop, step). nat (stop - i))") auto

function range_down :: "int \<Rightarrow> int \<Rightarrow> int \<Rightarrow> int list" where
  "range_down i stop step =
     (if step < 0 \<and> stop < i then i # range_down (i + step) stop step else [])"
  by pat_completeness auto
termination
  by (relation "measure (\<lambda>(i, stop, step). nat (i - stop))") auto

definition py_range :: "int \<Rightarrow> int \<Rightarrow> int \<Rightarrow> error + int list" where
  "py_range start stop step =
     (if step = 0 then Inl (ValueError (py ''range() arg 3 must not be zero''))
      else if 0 < step then Inr (range_up start stop step)
      else Inr (range_down start stop step))"

subsection \<open>\<open>str.join\<close> and insertion-ordered dictionaries\<close>

fun join :: "pystr \<Rightarrow> pystr list \<Rightarrow> pystr" where
  "join sep [] = []"
| "join sep [x] = x"
| "join sep (x # y # ys) = x @ sep @ join sep (y # ys)"

text \<open>
  A \<open>dict\<close> keeps its keys in insertion order; storing under a key that is present
  replaces the value and leaves the key where it is.
\<close>

fun dict_set :: "'k \<Rightarrow> 'v \<Rightarrow> ('k \<times> 'v) list \<Rightarrow> ('k \<times> 'v) list" where
  "dict_set k v [] = [(k, v)]"
| "dict_set k v ((k', v') # d) =
     (if k' = k then (k, v) # d else (k', v') # dict_set k v d)"

section \<open>The \<open>hashlib\<close> accumulators\<close>

text \<open>
  \<open>hashlib\<close> is a library outside the repository. Its documented contract is that
  repeated calls of \<open>update\<close> are equivalent to a single call with the concatenation of
  the arguments, so an accumulator is its constructor's name together with the octets it
  has absorbed, and \<open>hexdigest\<close> applies the library's digest function of that name. The
  digest functions are a parameter: \<open>L name data\<close> is the hexadecimal digest that the
  constructor \<open>name\<close> yields for the message \<open>data\<close>.
\<close>

record hasher =
  h_name :: pystr
  h_data :: bytes

type_synonym hashlib = "pystr \<Rightarrow> bytes \<Rightarrow> pystr"

definition hashlib_new :: "pystr \<Rightarrow> hasher" where
  "hashlib_new name = \<lparr>h_name = name, h_data = []\<rparr>"

definition h_update :: "hasher \<Rightarrow> bytes \<Rightarrow> hasher" where
  "h_update h chunk = h\<lparr>h_data := h_data h @ chunk\<rparr>"

definition hexdigest :: "hashlib \<Rightarrow> hasher \<Rightarrow> pystr" where
  "hexdigest L h = L (h_name h) (h_data h)"

subsection \<open>The \<open>md5\<close> constructor\<close>

text \<open>
  The one digest whose value a property below names is MD5 of the empty message, so the
  algorithm behind \<open>hashlib.md5\<close> is written out after RFC 1321: padding to a
  multiple of 64 octets, sixteen little-endian 32-bit words per block, 64 steps per block
  on the state \<open>(A, B, C, D)\<close>, and the state printed as little-endian octets in
  lowercase hexadecimal. \<open>md5_T\<close> is the table \<open>T[i] = floor(2^32 * abs(sin(i)))\<close>
  of the RFC, \<open>md5_s\<close> its rotation amounts.
\<close>

definition md5_T :: "32 word list" where
  "md5_T =
    [0xd76aa478, 0xe8c7b756, 0x242070db, 0xc1bdceee,
     0xf57c0faf, 0x4787c62a, 0xa8304613, 0xfd469501,
     0x698098d8, 0x8b44f7af, 0xffff5bb1, 0x895cd7be,
     0x6b901122, 0xfd987193, 0xa679438e, 0x49b40821,
     0xf61e2562, 0xc040b340, 0x265e5a51, 0xe9b6c7aa,
     0xd62f105d, 0x02441453, 0xd8a1e681, 0xe7d3fbc8,
     0x21e1cde6, 0xc33707d6, 0xf4d50d87, 0x455a14ed,
     0xa9e3e905, 0xfcefa3f8, 0x676f02d9, 0x8d2a4c8a,
     0xfffa3942, 0x8771f681, 0x6d9d6122, 0xfde5380c,
     0xa4beea44, 0x4bdecfa9, 0xf6bb4b60, 0xbebfbc70,
     0x289b7ec6, 0xeaa127fa, 0xd4ef3085, 0x04881d05,
     0xd9d4d039, 0xe6db99e5, 0x1fa27cf8, 0xc4ac5665,
     0xf4292244, 0x432aff97, 0xab9423a7, 0xfc93a039,
     0x655b59c3, 0x8f0ccc92, 0xffeff47d, 0x85845dd1,
     0x6fa87e4f, 0xfe2ce6e0, 0xa3014314, 0x4e0811a1,
     0xf7537e82, 0xbd3af235, 0x2ad7d2bb, 0xeb86d391]"

definition md5_s :: "nat list" where
  "md5_s =
    [7, 12, 17, 22, 7, 12, 17, 22, 7, 12, 17, 22, 7, 12, 17, 22,
     5, 9, 14, 20, 5, 9, 14, 20, 5, 9, 14, 20, 5, 9, 14, 20,
     4, 11, 16, 23, 4, 11, 16, 23, 4, 11, 16, 23, 4, 11, 16, 23,
     6, 10, 15, 21, 6, 10, 15, 21, 6, 10, 15, 21, 6, 10, 15, 21]"

definition md5_F :: "32 word \<Rightarrow> 32 word \<Rightarrow> 32 word \<Rightarrow> 32 word" where
  "md5_F x y z = (x AND y) OR (NOT x AND z)"

definition md5_G :: "32 word \<Rightarrow> 32 word \<Rightarrow> 32 word \<Rightarrow> 32 word" where
  "md5_G x y z = (x AND z) OR (y AND NOT z)"

definition md5_H :: "32 word \<Rightarrow> 32 word \<Rightarrow> 32 word \<Rightarrow> 32 word" where
  "md5_H x y z = x XOR y XOR z"

definition md5_I :: "32 word \<Rightarrow> 32 word \<Rightarrow> 32 word \<Rightarrow> 32 word" where
  "md5_I x y z = y XOR (x OR NOT z)"

definition rotl32 :: "nat \<Rightarrow> 32 word \<Rightarrow> 32 word" where
  "rotl32 s x = push_bit s x OR drop_bit (32 - s) x"

type_synonym md5_state = "32 word \<times> 32 word \<times> 32 word \<times> 32 word"

definition md5_init :: md5_state where
  "md5_init = (0x67452301, 0xefcdab89, 0x98badcfe, 0x10325476)"

definition md5_step :: "32 word list \<Rightarrow> nat \<Rightarrow> md5_state \<Rightarrow> md5_state" where
  "md5_step X i st =
     (case st of (a, b, c, d) \<Rightarrow>
        let f = (if i < 16 then md5_F b c d else if i < 32 then md5_G b c d
                 else if i < 48 then md5_H b c d else md5_I b c d);
            g = (if i < 16 then i else if i < 32 then (5 * i + 1) mod 16
                 else if i < 48 then (3 * i + 5) mod 16 else (7 * i) mod 16)
        in (d, b + rotl32 (md5_s ! i) (a + f + X ! g + md5_T ! i), b, c))"

definition md5_block :: "32 word list \<Rightarrow> md5_state \<Rightarrow> md5_state" where
  "md5_block X st =
     (case st of (a0, b0, c0, d0) \<Rightarrow>
        case fold (md5_step X) [0..<64] st of (a, b, c, d) \<Rightarrow>
          (a0 + a, b0 + b, c0 + c, d0 + d))"

fun le_bytes :: "nat \<Rightarrow> nat \<Rightarrow> bytes" where
  "le_bytes 0 n = []"
| "le_bytes (Suc k) n = of_nat (n mod 256) # le_bytes k (n div 256)"

fun le_words :: "bytes \<Rightarrow> 32 word list" where
  "le_words (b0 # b1 # b2 # b3 # bs) =
     (ucast b0 OR push_bit 8 (ucast b1) OR push_bit 16 (ucast b2) OR push_bit 24 (ucast b3))
       # le_words bs"
| "le_words _ = []"

definition md5_pad :: "bytes \<Rightarrow> bytes" where
  "md5_pad m =
     m @ [0x80] @ replicate ((119 - length m mod 64) mod 64) 0 @
     le_bytes 8 (8 * length m mod 18446744073709551616)"

definition md5 :: "bytes \<Rightarrow> bytes" where
  "md5 m =
     (case fold md5_block (chunked 16 (le_words (md5_pad m))) md5_init of (a, b, c, d) \<Rightarrow>
        concat (map (\<lambda>w. le_bytes 4 (unat w)) [a, b, c, d]))"

definition hex :: "bytes \<Rightarrow> pystr" where
  "hex bs = concat (map (\<lambda>b. [py ''0123456789abcdef'' ! (unat b div 16),
                              py ''0123456789abcdef'' ! (unat b mod 16)]) bs)"

definition md5_hexdigest :: "bytes \<Rightarrow> pystr" where
  "md5_hexdigest m = hex (md5 m)"

text \<open>
  A library instance for closed examples: its \<open>md5\<close> is the function above, and for
  every other name the digest is the name followed by the absorbed octets in hexadecimal,
  which shows what an accumulator has been fed.
\<close>

definition example_hashlib :: hashlib where
  "example_hashlib name data =
     (if name = py ''md5'' then md5_hexdigest data else name @ py '':'' @ hex data)"

section \<open>The digest engine\<close>

definition support_hash_algorithms :: "pystr list" where
  "support_hash_algorithms = [py ''md5'', py ''sha1'', py ''sha256'', py ''sha512'']"

definition default_hash_algorithms :: "pystr list" where
  "default_hash_algorithms = support_hash_algorithms"

definition or_default :: "pystr list option \<Rightarrow> pystr list" where
  \<comment> \<open>\<open>if hash_algorithms is None: hash_algorithms = self.default_hash_algorithms\<close>\<close>
  "or_default hash_algorithms =
     (case hash_algorithms of None \<Rightarrow> default_hash_algorithms | Some a \<Rightarrow> a)"

text \<open>
  What a call does besides returning: the accumulators it creates, the file it opens,
  the progress bar it starts (total and description), each \<open>f.read\<close> with the octets it
  returned, each \<open>update\<close> of the accumulator stored under a key, and each progress
  report.
\<close>

datatype event =
    Create pystr
  | Open pystr
  | Tqdm nat pystr
  | Read bytes
  | Update pystr bytes
  | Progress nat

type_synonym hashers = "(pystr \<times> hasher) list"

text \<open>
  \<^verbatim>\<open>
  def _validate_hash_algorithms(self, hash_algorithms):
      return [
          i if i in self.support_hash_algorithms
          else (_ for _ in ()).throw(ValueError(f"Unsupported hash_algorithm: {i}"))
          for i in hash_algorithms
      ]
  \<close>
  The comprehension runs in list order and the first \<open>throw\<close> ends it.
\<close>

fun validate_hash_algorithms :: "pystr list \<Rightarrow> error + pystr list" where
  "validate_hash_algorithms [] = Inr []"
| "validate_hash_algorithms (i # rest) =
     (if i \<in> set support_hash_algorithms then
        (case validate_hash_algorithms rest of
           Inl e \<Rightarrow> Inl e
         | Inr r \<Rightarrow> Inr (i # r))
      else Inl (ValueError (py ''Unsupported hash_algorithm: '' @ i)))"

text \<open>
  \<open>hashers = {i: getattr(hashlib, i)() for i in hash_algorithms}\<close>: one constructor
  call per list entry, stored under the entry. The list has passed validation, so every
  name is a constructor of the library.
\<close>

fun build_hashers :: "pystr list \<Rightarrow> hashers \<Rightarrow> hashers \<times> event list" where
  "build_hashers [] hs = (hs, [])"
| "build_hashers (i # rest) hs =
     (let (hs', tr) = build_hashers rest (dict_set i (hashlib_new i) hs)
      in (hs', Create i # tr))"

definition make_hashers :: "pystr list \<Rightarrow> hashers \<times> event list" where
  "make_hashers hash_algorithms = build_hashers hash_algorithms []"

text \<open>
  The body of both loops:
  \<^verbatim>\<open>
      for h in hashers.values():
          h.update(chunk)
      pbar.update(len(chunk))
  \<close>
\<close>

definition update_all :: "bytes \<Rightarrow> hashers \<Rightarrow> hashers" where
  "update_all chunk hs = map (\<lambda>(k, h). (k, h_update h chunk)) hs"

definition update_events :: "bytes \<Rightarrow> hashers \<Rightarrow> event list" where
  "update_events chunk hs = map (\<lambda>(k, h). Update k chunk) hs @ [Progress (length chunk)]"

definition finalize :: "hashlib \<Rightarrow> hashers \<Rightarrow> (pystr \<times> pystr) list" where
  \<comment> \<open>\<open>{i: h.hexdigest() for i, h in hashers.items()}\<close>\<close>
  "finalize L hs = map (\<lambda>(i, h). (i, hexdigest L h)) hs"

definition description :: "pystr list \<Rightarrow> pystr \<Rightarrow> pystr" where
  \<comment> \<open>\<open>f"[Hasher Algorithms ({', '.join(hash_algorithms)})] {self._shorten_middle_text(x)}"\<close>\<close>
  "description hash_algorithms x =
     py ''[Hasher Algorithms ('' @ join (py '', '') hash_algorithms @ py '')] '' @
     shorten_middle_text x text_max_len_default"

subsection \<open>\<open>hash_file\<close>\<close>

text \<open>
  \<open>f.read(n)\<close> on a binary file first converts \<open>n\<close> to the index type of the
  interpreter and raises \<open>OverflowError\<close> when it does not fit: \<open>sys.maxsize\<close> is
  \<open>2^63 - 1\<close> on the 64-bit interpreter modelled here. It then raises \<open>ValueError\<close> for
  \<open>n < -1\<close>, returns everything that is left for \<open>n = -1\<close>, and otherwise the next
  \<open>n\<close> octets, fewer at the end of the file. The file object is the octets not yet read.
\<close>

definition maxsize :: int where
  "maxsize = 9223372036854775807"

definition f_read :: "int \<Rightarrow> bytes \<Rightarrow> error + bytes \<times> bytes" where
  "f_read n rest =
     (if n < - maxsize - 1 \<or> maxsize < n then
        Inl OverflowError
      else if n < - 1 then Inl (ValueError (py ''read length must be non-negative or -1''))
      else if n = - 1 then Inr (rest, [])
      else Inr (take (nat n) rest, drop (nat n) rest))"

text \<open>
  \<^verbatim>\<open>
      while chunk := f.read(chunk_size):
          for h in hashers.values():
              h.update(chunk)
          pbar.update(len(chunk))
  \<close>
  The loop ends at the first empty chunk.
\<close>

function file_loop :: "int \<Rightarrow> bytes \<Rightarrow> hashers \<Rightarrow> event list \<times> (error + hashers)" where
  "file_loop n rest hs =
     (case f_read n rest of
        Inl e \<Rightarrow> ([], Inl e)
      | Inr (chunk, rest') \<Rightarrow>
          if chunk = [] then ([Read chunk], Inr hs)
          else (let (tr, r) = file_loop n rest' (update_all chunk hs)
                in (Read chunk # update_events chunk hs @ tr, r)))"
  by pat_completeness auto
termination
  by (relation "measure (\<lambda>(n, rest, hs). length rest)")
     (auto simp: f_read_def split: if_splits)

definition hash_file ::
  "hashlib \<Rightarrow> filesystem \<Rightarrow> pystr \<Rightarrow> pystr list option \<Rightarrow> int \<Rightarrow>
   event list \<times> (error + (pystr \<times> pystr) list)" where
  "hash_file L fs file_path hash_algorithms chunk_size_mb =
     (case fs file_path of
        None \<Rightarrow> ([], Inl (FileNotFoundError (py ''Not found file_path: '' @ file_path)))
      | Some (sz, contents) \<Rightarrow>
          let algs = or_default hash_algorithms;
              total = sz;
              desc = description algs file_path;
              chunk_size = chunk_size_mb * 1024 * 1024
          in case validate_hash_algorithms algs of
               Inl e \<Rightarrow> ([], Inl e)
             | Inr algs' \<Rightarrow>
                 let (hs, tr1) = make_hashers algs';
                     (tr2, r) = file_loop chunk_size contents hs
                 in (tr1 @ [Open file_path, Tqdm total desc] @ tr2,
                     case r of Inl e \<Rightarrow> Inl e | Inr hs' \<Rightarrow> Inr (finalize L hs')))"

subsection \<open>\<open>hash_text\<close>\<close>

text \<open>
  \<^verbatim>\<open>
      for i in range(0, total, chunk_size):
          chunk = data[i:i + chunk_size]
          for h in hashers.values():
              h.update(chunk)
          pbar.update(len(chunk))
  \<close>
\<close>

fun text_loop :: "bytes \<Rightarrow> int \<Rightarrow> int list \<Rightarrow> hashers \<Rightarrow> event list \<times> hashers" where
  "text_loop data chunk_size [] hs = ([], hs)"
| "text_loop data chunk_size (i # rest) hs =
     (let chunk = slice data i (i + chunk_size);
          (tr, hs') = text_loop data chunk_size rest (update_all chunk hs)
      in (update_events chunk hs @ tr, hs'))"

definition hash_text ::
  "hashlib \<Rightarrow> pystr \<Rightarrow> pystr list option \<Rightarrow> int \<Rightarrow>
   event list \<times> (error + (pystr \<times> pystr) list)" where
  "hash_text L text hash_algorithms chunk_size_mb =
     (let algs = or_default hash_algorithms
      in case encode_utf8 text of
           Inl e \<Rightarrow> ([], Inl e)
         | Inr data \<Rightarrow>
             let total = length data;
                 desc = description algs text;
                 chunk_size = chunk_size_mb * 1024 * 1024
             in case validate_hash_algorithms algs of
                  Inl e \<Rightarrow> ([], Inl e)
                | Inr algs' \<Rightarrow>
                    let (hs, tr1) = make_hashers algs'
                    in case py_range 0 (int total) chunk_size of
                         Inl e \<Rightarrow> (tr1 @ [Tqdm total desc], Inl e)
                       | Inr idxs \<Rightarrow>
                           let (tr2, hs') = text_loop data chunk_size idxs hs
                           in (tr1 @ [Tqdm total desc] @ tr2, Inr (finalize L hs')))"

section \<open>Vocabulary of the properties\<close>

text \<open>The requested identifiers with every repetition after the first removed.\<close>

fun first_occurrences :: "'a list \<Rightarrow> 'a list" where
  "first_occurrences [] = []"
| "first_occurrences (x # xs) = x # filter (\<lambda>y. y \<noteq> x) (first_occurrences xs)"

text \<open>The accumulators stored under the keys \<open>ks\<close> when each has absorbed \<open>d\<close>.\<close>

definition hashers_at :: "pystr list \<Rightarrow> bytes \<Rightarrow> hashers" where
  "hashers_at ks d = map (\<lambda>k. (k, \<lparr>h_name = k, h_data = d\<rparr>)) ks"

text \<open>The events of one round of the loop body over the keys \<open>ks\<close>.\<close>

definition key_events :: "pystr list \<Rightarrow> bytes \<Rightarrow> event list" where
  "key_events ks c = map (\<lambda>k. Update k c) ks @ [Progress (length c)]"

text \<open>The chunks that a run has fed to the accumulator stored under \<open>a\<close>, in order.\<close>

fun fed :: "pystr \<Rightarrow> event list \<Rightarrow> bytes list" where
  "fed a [] = []"
| "fed a (Update k c # es) = (if k = a then c # fed a es else fed a es)"
| "fed a (e # es) = fed a es"

text \<open>The octets that the reads of a run have returned, in order.\<close>

fun reads :: "event list \<Rightarrow> bytes list" where
  "reads [] = []"
| "reads (Read c # es) = c # reads es"
| "reads (e # es) = reads es"

text \<open>\<open>result[a]\<close> on what a call returns; an exception stays the exception.\<close>

definition entry :: "pystr \<Rightarrow> error + (pystr \<times> pystr) list \<Rightarrow> error + pystr option" where
  "entry a r = (case r of Inl e \<Rightarrow> Inl e | Inr d \<Rightarrow> Inr (map_of d a))"

definition unsupported :: "pystr \<Rightarrow> error" where
  "unsupported i = ValueError (py ''Unsupported hash_algorithm: '' @ i)"


section \<open>Display truncation\<close>

lemma length_py [simp]: "length (py s) = length s"
  by (simp add: py_def)

lemma shorten_middle_text_short:
  "int (length text) \<le> m \<Longrightarrow> shorten_middle_text text m = text"
  by (simp add: shorten_middle_text_def)

lemma shorten_middle_text_long:
  assumes "5 \<le> m" and "m < int (length text)"
  shows "shorten_middle_text text m =
           take (nat ((m - 3) div 2)) text @ py ''...'' @
           drop (length text - nat ((m - 3) div 2)) text"
proof -
  let ?part = "(m - 3) div 2"
  have pos: "0 < ?part" using assms(1) by linarith
  have le: "?part < int (length text)" using assms by linarith
  have "\<not> ?part < 0" and "nat ?part \<le> length text"
    using pos le by linarith+
  then have "slice_index (length text) ?part = nat ?part"
    by (simp only: slice_index_def if_False min_absorb2)
  then have a: "slice_to text ?part = take (nat ?part) text"
    by (simp only: slice_to_def)
  have "slice_index (length text) (- ?part) = length text - nat ?part"
    unfolding slice_index_def using pos by simp
  then have b: "slice_from text (- ?part) = drop (length text - nat ?part) text"
    by (simp only: slice_from_def)
  show ?thesis
    using assms(2) a b by (simp add: shorten_middle_text_def Let_def)
qed

text \<open>
  C10 (as amended). When \<open>len(text) \<le> m\<close> the text is returned unchanged, for every
  \<open>m\<close>. When \<open>len(text) > m\<close> and \<open>m \<ge> 5\<close>, the result is the first \<open>k\<close> and the
  last \<open>k\<close> code points of the text, \<open>k = (m - 3) // 2 \<ge> 1\<close>, joined by the three
  characters \<open>...\<close>, and its length \<open>2 k + 3\<close> is at most \<open>m\<close>.
\<close>

theorem shorten_middle_text_spec:
  "(int (length text) \<le> m \<longrightarrow> shorten_middle_text text m = text) \<and>
   (5 \<le> m \<and> m < int (length text) \<longrightarrow>
      (let k = nat ((m - 3) div 2) in
         shorten_middle_text text m = take k text @ py ''...'' @ drop (length text - k) text \<and>
         1 \<le> k \<and> length (take k text) = k \<and> length (drop (length text - k) text) = k \<and>
         length (shorten_middle_text text m) = 2 * k + 3 \<and>
         int (length (shorten_middle_text text m)) \<le> m))"
proof (intro conjI impI)
  assume "int (length text) \<le> m"
  then show "shorten_middle_text text m = text"
    by (rule shorten_middle_text_short)
next
  assume h: "5 \<le> m \<and> m < int (length text)"
  define k where "k = nat ((m - 3) div 2)"
  have k1: "1 \<le> k" using h unfolding k_def by linarith
  have kl: "k \<le> length text" using h unfolding k_def by linarith
  have km: "int (2 * k + 3) \<le> m" using h unfolding k_def by linarith
  have eq: "shorten_middle_text text m = take k text @ py ''...'' @ drop (length text - k) text"
    unfolding k_def using h by (simp add: shorten_middle_text_long)
  have l1: "length (take k text) = k" using kl by simp
  have l2: "length (drop (length text - k) text) = k" using kl by simp
  have len: "length (shorten_middle_text text m) = 2 * k + 3"
    unfolding eq using l1 l2 by simp
  show "let k = nat ((m - 3) div 2) in
         shorten_middle_text text m = take k text @ py ''...'' @ drop (length text - k) text \<and>
         1 \<le> k \<and> length (take k text) = k \<and> length (drop (length text - k) text) = k \<and>
         length (shorten_middle_text text m) = 2 * k + 3 \<and>
         int (length (shorten_middle_text text m)) \<le> m"
    unfolding Let_def k_def [symmetric]
    using eq k1 l1 l2 len km by simp
qed

theorem shorten_middle_text_spec_witness:
  "shorten_middle_text (py ''abc'') 50 = py ''abc'' \<and>
   shorten_middle_text (py ''abcdefghij'') 7 = py ''ab...ij'' \<and>
   length (shorten_middle_text (py ''abcdefghij'') 7) = 7"
  using shorten_middle_text_spec [of "py ''abc''" 50]
        shorten_middle_text_spec [of "py ''abcdefghij''" 7]
  by (simp add: py_def)

text \<open>
  The claim as stated, for every maximum: with \<open>m = 2\<close> and the text \<open>abc\<close> the text is
  longer than \<open>m\<close>, \<open>part\<close> is \<open>-1\<close>, and the result \<open>ab...bc\<close> has seven characters.
\<close>

theorem shorten_middle_text_counterexample:
  "2 < int (length (py ''abc'')) \<and>
   shorten_middle_text (py ''abc'') 2 = py ''ab...bc'' \<and>
   \<not> int (length (shorten_middle_text (py ''abc'') 2)) \<le> 2"
  by (simp add: shorten_middle_text_def slice_to_def slice_from_def slice_index_def py_def)

section \<open>Validation and the accumulators\<close>

declare file_loop.simps [simp del] range_up.simps [simp del] range_down.simps [simp del]
  chunked.simps [simp del]


lemma validate_ok:
  "set algs \<subseteq> set support_hash_algorithms \<Longrightarrow> validate_hash_algorithms algs = Inr algs"
  by (induction algs) auto

lemma validate_bad:
  "set pre \<subseteq> set support_hash_algorithms \<Longrightarrow> bad \<notin> set support_hash_algorithms \<Longrightarrow>
   validate_hash_algorithms (pre @ bad # post) =
     Inl (ValueError (py ''Unsupported hash_algorithm: '' @ bad))"
  by (induction pre) auto

lemma validate_Inr:
  "validate_hash_algorithms algs = Inr r \<Longrightarrow> r = algs \<and> set algs \<subseteq> set support_hash_algorithms"
  by (induction algs arbitrary: r) (auto split: if_splits sum.splits)

lemma set_first_occurrences [simp]: "set (first_occurrences xs) = set xs"
  by (induction xs) auto

lemma distinct_first_occurrences [simp]: "distinct (first_occurrences xs)"
  by (induction xs) auto

lemma remdups_snoc: "remdups (ys @ [x]) = remdups (filter (\<lambda>y. y \<noteq> x) ys) @ [x]"
  by (induction ys) auto

lemma first_occurrences_remdups: "first_occurrences xs = rev (remdups (rev xs))"
proof (induction xs)
  case Nil
  show ?case by simp
next
  case (Cons x xs)
  have "remdups (rev xs @ [x]) = remdups (filter (\<lambda>y. y \<noteq> x) (rev xs)) @ [x]"
    by (rule remdups_snoc)
  also have "\<dots> = filter (\<lambda>y. y \<noteq> x) (remdups (rev xs)) @ [x]"
    by (simp add: remdups_filter)
  finally show ?case using Cons by (simp add: rev_filter)
qed

lemma dict_set_hashers_at:
  "dict_set i (hashlib_new i) (hashers_at ks []) =
     hashers_at (if i \<in> set ks then ks else ks @ [i]) []"
  by (induction ks) (auto simp: hashers_at_def hashlib_new_def)

lemma build_hashers_fst:
  "fst (build_hashers algs (hashers_at ks [])) =
     hashers_at (ks @ filter (\<lambda>a. a \<notin> set ks) (first_occurrences algs)) []"
proof (induction algs arbitrary: ks)
  case Nil
  show ?case by simp
next
  case (Cons i algs)
  have *: "fst (build_hashers (i # algs) (hashers_at ks [])) =
        fst (build_hashers algs (hashers_at (if i \<in> set ks then ks else ks @ [i]) []))"
    by (simp add: dict_set_hashers_at split: prod.splits)
  show ?case
    unfolding * Cons.IH
    by (auto simp: filter_filter conj_commute intro!: arg_cong2[where f=hashers_at] filter_cong)
qed

lemma build_hashers_snd: "snd (build_hashers algs hs) = map Create algs"
  by (induction algs arbitrary: hs) (simp_all add: case_prod_beta)

lemma make_hashers_eq:
  "make_hashers algs = (hashers_at (first_occurrences algs) [], map Create algs)"
  using build_hashers_fst [of algs "[]"] build_hashers_snd [of algs "[]"]
  by (simp add: make_hashers_def hashers_at_def prod_eq_iff)

subsection \<open>The loop body and the two loops\<close>


lemma keys_update_all [simp]: "map fst (update_all c hs) = map fst hs"
  by (induction hs) (auto simp: update_all_def)

lemma update_events_keys: "update_events c hs = key_events (map fst hs) c"
  by (simp add: update_events_def key_events_def case_prod_beta comp_def)

lemma update_all_append: "update_all b (update_all a hs) = update_all (a @ b) hs"
  by (induction hs) (auto simp: update_all_def h_update_def)

lemma update_all_Nil [simp]: "update_all [] hs = hs"
  by (induction hs) (auto simp: update_all_def h_update_def)

lemma update_all_hashers_at: "update_all c (hashers_at ks d) = hashers_at ks (d @ c)"
  by (simp add: update_all_def hashers_at_def h_update_def)

lemma finalize_hashers_at: "finalize L (hashers_at ks d) = map (\<lambda>k. (k, L k d)) ks"
  by (simp add: finalize_def hashers_at_def hexdigest_def)

lemma keys_hashers_at [simp]: "map fst (hashers_at ks d) = ks"
  by (simp add: hashers_at_def comp_def)


lemma concat_chunked: "0 < n \<Longrightarrow> concat (chunked n xs) = xs"
  by (induction n xs rule: chunked.induct) (subst chunked.simps, auto)



lemma text_loop_eq:
  "text_loop data cs idxs hs =
     (concat (map (key_events (map fst hs)) (map (\<lambda>i. slice data i (i + cs)) idxs)),
      update_all (concat (map (\<lambda>i. slice data i (i + cs)) idxs)) hs)"
  by (induction idxs arbitrary: hs)
     (simp_all add: Let_def update_events_keys update_all_append)

lemma slices_chunked:
  "0 < cs \<Longrightarrow> 0 \<le> i \<Longrightarrow>
   map (\<lambda>j. slice data j (j + cs)) (range_up i (int (length data)) cs) =
     chunked (nat cs) (drop (nat i) data)"
proof (induction i "int (length data)" cs rule: range_up.induct)
  case (1 i cs)
  show ?case
  proof (cases "i < int (length data)")
    case True
    have nn: "nat (i + cs) = nat cs + nat i"
      using 1(2,3) by linarith
    have sl: "slice data i (i + cs) = take (nat cs) (drop (nat i) data)"
      using True 1(2,3) by (auto simp: slice_def slice_index_def Let_def min_def nn)
    have ne: "drop (nat i) data \<noteq> []" using True 1(3) by simp
    have r: "range_up i (int (length data)) cs = i # range_up (i + cs) (int (length data)) cs"
      using True 1(2) by (subst range_up.simps) simp
    have c: "chunked (nat cs) (drop (nat i) data) =
        take (nat cs) (drop (nat i) data) # chunked (nat cs) (drop (nat (i + cs)) data)"
      using ne 1(2) by (subst chunked.simps) (simp add: nn)
    have IH: "map (\<lambda>j. slice data j (j + cs)) (range_up (i + cs) (int (length data)) cs) =
        chunked (nat cs) (drop (nat (i + cs)) data)"
      using 1(1) True 1(2,3) by simp
    show ?thesis
      unfolding r c using sl IH by simp
  next
    case False
    then have "drop (nat i) data = []" using 1(3) by simp
    moreover have "range_up i (int (length data)) cs = []"
      using False by (subst range_up.simps) simp
    ultimately show ?thesis by (simp add: chunked.simps)
  qed
qed

lemma file_loop_pos:
  "0 < n \<Longrightarrow> n \<le> maxsize \<Longrightarrow>
   file_loop n rest hs =
     (concat (map (\<lambda>c. Read c # key_events (map fst hs) c) (chunked (nat n) rest)) @ [Read []],
      Inr (update_all rest hs))"
proof (induction n rest hs rule: file_loop.induct)
  case (1 n rest hs)
  have rd: "f_read n rest = Inr (take (nat n) rest, drop (nat n) rest)"
    using 1(2,3) by (simp add: f_read_def)
  show ?case
  proof (cases "rest = []")
    case True
    then show ?thesis using rd by (subst file_loop.simps) (simp add: chunked.simps)
  next
    case False
    then have ne: "take (nat n) rest \<noteq> []" using 1(2) by simp
    have ch: "chunked (nat n) rest = take (nat n) rest # chunked (nat n) (drop (nat n) rest)"
      using False 1(2) by (subst chunked.simps) simp
    have IH: "file_loop n (drop (nat n) rest) (update_all (take (nat n) rest) hs) =
       (concat (map (\<lambda>c. Read c # key_events (map fst hs) c) (chunked (nat n) (drop (nat n) rest))) @ [Read []],
        Inr (update_all (drop (nat n) rest) (update_all (take (nat n) rest) hs)))"
      using 1(1)[OF rd _ ne 1(2,3)] by simp
    have step: "file_loop n rest hs =
       (let (tr, r) = file_loop n (drop (nat n) rest) (update_all (take (nat n) rest) hs)
        in (Read (take (nat n) rest) # update_events (take (nat n) rest) hs @ tr, r))"
      using False 1(2) by (subst file_loop.simps) (simp add: rd)
    show ?thesis
      unfolding step IH ch by (simp add: update_events_keys update_all_append)
  qed
qed

lemma file_loop_zero: "file_loop 0 rest hs = ([Read []], Inr hs)"
  by (subst file_loop.simps) (simp add: f_read_def maxsize_def)

lemma file_loop_neg:
  "n < - 1 \<Longrightarrow> - maxsize - 1 \<le> n \<Longrightarrow> file_loop n rest hs =
     ([], Inl (ValueError (py ''read length must be non-negative or -1'')))"
  by (subst file_loop.simps) (simp add: f_read_def maxsize_def)

lemma file_loop_overflow:
  "n < - maxsize - 1 \<or> maxsize < n \<Longrightarrow> file_loop n rest hs = ([], Inl OverflowError)"
  by (subst file_loop.simps) (simp add: f_read_def)

subsection \<open>What a call does and returns\<close>

lemma range_up_slices:
  "0 < cs \<Longrightarrow>
   map (\<lambda>j. slice data j (j + cs)) (range_up 0 (int (length data)) cs) = chunked (nat cs) data"
  using slices_chunked [of cs 0 data] by simp

lemma range_down_empty: "range_down 0 (int n) cs = []"
  by (subst range_down.simps) simp

lemma text_loop_pos:
  assumes "0 < cs"
  shows "text_loop data cs (range_up 0 (int (length data)) cs) hs =
           (concat (map (key_events (map fst hs)) (chunked (nat cs) data)), update_all data hs)"
proof -
  have "nat cs > 0" using assms by simp
  then show ?thesis
    unfolding text_loop_eq range_up_slices [OF assms] by (simp only: concat_chunked)
qed

lemma hash_text_run:
  assumes "encode_utf8 text = Inr data"
    and "validate_hash_algorithms (or_default ha) = Inr algs"
  shows "hash_text L text ha c =
     (if c = 0 then
        (map Create algs @ [Tqdm (length data) (description algs text)],
         Inl (ValueError (py ''range() arg 3 must not be zero'')))
      else
        (map Create algs @ [Tqdm (length data) (description algs text)] @
           concat (map (key_events (first_occurrences algs))
                    (if 0 < c then chunked (nat (c * 1024 * 1024)) data else [])),
         Inr (map (\<lambda>k. (k, L k (if 0 < c then data else []))) (first_occurrences algs))))"
proof -
  define cs where "cs = c * 1024 * 1024"
  have algs: "or_default ha = algs" using assms(2) validate_Inr by blast
  have start: "hash_text L text ha c =
     (case py_range 0 (int (length data)) cs of
        Inl e \<Rightarrow> (map Create algs @ [Tqdm (length data) (description algs text)], Inl e)
      | Inr idxs \<Rightarrow>
          (let (tr2, hs') = text_loop data cs idxs (hashers_at (first_occurrences algs) [])
           in (map Create algs @ [Tqdm (length data) (description algs text)] @ tr2,
               Inr (finalize L hs'))))"
    unfolding hash_text_def cs_def [symmetric] using assms
    by (simp add: algs make_hashers_eq Let_def)
  consider "c = 0" | "0 < c" | "c < 0" by linarith
  then show ?thesis
  proof cases
    case 1
    then have "cs = 0" by (simp add: cs_def)
    then show ?thesis unfolding start using 1 by (simp add: py_range_def)
  next
    case 2
    then have cs: "0 < cs" by (simp add: cs_def)
    have "py_range 0 (int (length data)) cs = Inr (range_up 0 (int (length data)) cs)"
      using cs by (simp add: py_range_def)
    then show ?thesis
      unfolding start cs_def [symmetric] using 2
      by (simp add: text_loop_pos [OF cs] update_all_hashers_at finalize_hashers_at)
  next
    case 3
    then have cs: "cs < 0" by (simp add: cs_def)
    have "py_range 0 (int (length data)) cs = Inr []"
      using cs by (simp add: py_range_def range_down_empty)
    then show ?thesis
      unfolding start using 3 by (simp add: finalize_hashers_at)
  qed
qed

lemma hash_file_run:
  assumes "fs p = Some (sz, contents)"
    and "validate_hash_algorithms (or_default ha) = Inr algs"
  shows "hash_file L fs p ha c =
     (if c * 1024 * 1024 < - maxsize - 1 \<or> maxsize < c * 1024 * 1024 then
        (map Create algs @ [Open p, Tqdm sz (description algs p)], Inl OverflowError)
      else if c < 0 then
        (map Create algs @ [Open p, Tqdm sz (description algs p)],
         Inl (ValueError (py ''read length must be non-negative or -1'')))
      else
        (map Create algs @ [Open p, Tqdm sz (description algs p)] @
           concat (map (\<lambda>ch. Read ch # key_events (first_occurrences algs) ch)
                    (chunked (nat (c * 1024 * 1024)) contents)) @ [Read []],
         Inr (map (\<lambda>k. (k, L k (if 0 < c then contents else []))) (first_occurrences algs))))"
proof -
  define cs where "cs = c * 1024 * 1024"
  have algs: "or_default ha = algs" using assms(2) validate_Inr by blast
  have start: "hash_file L fs p ha c =
     (let (tr2, r) = file_loop cs contents (hashers_at (first_occurrences algs) [])
      in (map Create algs @ [Open p, Tqdm sz (description algs p)] @ tr2,
          case r of Inl e \<Rightarrow> Inl e | Inr hs' \<Rightarrow> Inr (finalize L hs')))"
    unfolding hash_file_def cs_def [symmetric] using assms
    by (simp add: algs make_hashers_eq Let_def)
  consider "cs < - maxsize - 1 \<or> maxsize < cs"
    | "- maxsize - 1 \<le> cs" "cs \<le> maxsize" "c = 0"
    | "- maxsize - 1 \<le> cs" "cs \<le> maxsize" "0 < c"
    | "- maxsize - 1 \<le> cs" "cs \<le> maxsize" "c < 0" by linarith
  then show ?thesis
  proof cases
    case 1
    then show ?thesis unfolding start cs_def [symmetric]
      by (simp add: file_loop_overflow)
  next
    case 2
    then have "cs = 0" by (simp add: cs_def)
    then show ?thesis unfolding start cs_def [symmetric] using 2
      by (simp add: file_loop_zero finalize_hashers_at chunked.simps)
  next
    case 3
    then have cs: "0 < cs" by (simp add: cs_def)
    show ?thesis unfolding start cs_def [symmetric] using 3
      by (simp add: file_loop_pos [OF cs 3(2)] update_all_hashers_at finalize_hashers_at)
  next
    case 4
    then have cs: "cs < - 1" by (simp add: cs_def)
    show ?thesis unfolding start cs_def [symmetric] using 4
      by (simp add: file_loop_neg [OF cs 4(1)])
  qed
qed

lemma hash_text_result:
  "snd (hash_text L text ha c) =
     (case encode_utf8 text of
        Inl e \<Rightarrow> Inl e
      | Inr data \<Rightarrow>
          (case validate_hash_algorithms (or_default ha) of
             Inl e \<Rightarrow> Inl e
           | Inr algs \<Rightarrow>
               if c = 0 then Inl (ValueError (py ''range() arg 3 must not be zero''))
               else Inr (map (\<lambda>k. (k, L k (if 0 < c then data else [])))
                          (first_occurrences algs))))"
proof (cases "encode_utf8 text")
  case (Inl e)
  then show ?thesis by (simp add: hash_text_def)
next
  case data: (Inr data)
  show ?thesis
  proof (cases "validate_hash_algorithms (or_default ha)")
    case (Inl e)
    then show ?thesis using data by (simp add: hash_text_def)
  next
    case (Inr algs)
    then show ?thesis using data by (simp add: hash_text_run)
  qed
qed

lemma hash_file_result:
  "snd (hash_file L fs p ha c) =
     (case fs p of
        None \<Rightarrow> Inl (FileNotFoundError (py ''Not found file_path: '' @ p))
      | Some (sz, contents) \<Rightarrow>
          (case validate_hash_algorithms (or_default ha) of
             Inl e \<Rightarrow> Inl e
           | Inr algs \<Rightarrow>
               if c * 1024 * 1024 < - maxsize - 1 \<or> maxsize < c * 1024 * 1024
               then Inl OverflowError
               else if c < 0
               then Inl (ValueError (py ''read length must be non-negative or -1''))
               else Inr (map (\<lambda>k. (k, L k (if 0 < c then contents else [])))
                          (first_occurrences algs))))"
proof (cases "fs p")
  case None
  then show ?thesis by (simp add: hash_file_def)
next
  case (Some f)
  obtain sz contents where f: "f = (sz, contents)" by (cases f)
  show ?thesis
  proof (cases "validate_hash_algorithms (or_default ha)")
    case (Inl e)
    then show ?thesis using Some f by (simp add: hash_file_def)
  next
    case (Inr algs)
    have "fs p = Some (sz, contents)" using Some f by simp
    from hash_file_run [where fs = fs and p = p, OF this Inr]
    show ?thesis using Some f Inr by simp
  qed
qed

lemma mb_in_range: "0 \<le> c \<Longrightarrow> c * 1024 * 1024 < 2 ^ 63 \<Longrightarrow>
    \<not> (c * 1024 * 1024 < - maxsize - 1 \<or> maxsize < c * 1024 * 1024)"
  by (simp add: maxsize_def)

subsection \<open>Events of a run\<close>


lemma fed_append [simp]: "fed a (xs @ ys) = fed a xs @ fed a ys"
  by (induction a xs rule: fed.induct) auto

lemma reads_append [simp]: "reads (xs @ ys) = reads xs @ reads ys"
  by (induction xs rule: reads.induct) auto

lemma fed_Create [simp]: "fed a (map Create algs) = []"
  by (induction algs) auto

lemma reads_Create [simp]: "reads (map Create algs) = []"
  by (induction algs) auto


lemma reads_Updates [simp]: "reads (map (\<lambda>k. Update k c) ks) = []"
  by (induction ks) auto


lemma reads_key_events [simp]: "reads (key_events ks c) = []"
  by (simp add: key_events_def)




lemma map_of_digests:
  "map_of (map (\<lambda>k. (k, f k)) ks) a = (if a \<in> set ks then Some (f a) else None)"
  by (induction ks) auto

lemma validate_iff:
  "validate_hash_algorithms algs = Inr algs \<longleftrightarrow> set algs \<subseteq> set support_hash_algorithms"
  using validate_ok validate_Inr by blast

lemma default_valid: "validate_hash_algorithms default_hash_algorithms = Inr default_hash_algorithms"
  by (rule validate_ok) (simp add: default_hash_algorithms_def)

section \<open>Evaluation\<close>

lemmas witness_simps =
  py_def or_default_def default_hash_algorithms_def support_hash_algorithms_def
  encode_char_def unsupported_def


lemma replicate_numeral: "replicate (numeral k) x = x # replicate (pred_numeral k) x"
  by (simp only: numeral_eq_Suc [of k] replicate_Suc)

lemma le_bytes_numeral:
  "le_bytes (numeral k) n = of_nat (n mod 256) # le_bytes (pred_numeral k) (n div 256)"
  by (simp only: numeral_eq_Suc [of k] le_bytes.simps)

lemmas md5_defs =
  md5_hexdigest_def md5_def md5_pad_def md5_block_def md5_step_def md5_init_def
  md5_F_def md5_G_def md5_H_def md5_I_def md5_s_def md5_T_def rotl32_def hex_def py_def
  replicate_numeral le_bytes_numeral upt_rec chunked.simps

text \<open>The first and the third line of the test suite of RFC 1321 (appendix A.5).\<close>

lemma md5_empty_message: "md5_hexdigest [] = py ''d41d8cd98f00b204e9800998ecf8427e''"
  by (simp add: md5_defs)

lemma md5_abc: "md5_hexdigest [0x61, 0x62, 0x63] = py ''900150983cd24fb0d6963f7d28e17f72''"
  by (simp add: md5_defs)


section \<open>Properties of the digest engine\<close>










text \<open>
  C4 (as amended), validation short-circuit. When the requested list has an
  unrecognised identifier, \<open>hash_file\<close> on an existing file and \<open>hash_text\<close> on a text
  that has a UTF-8 encoding raise \<open>ValueError\<close> naming the first unrecognised
  identifier in list order, having created no accumulator, opened nothing, read nothing
  and updated nothing: the run has no event.
\<close>

theorem validation_short_circuit:
  assumes "set pre \<subseteq> set support_hash_algorithms" and "bad \<notin> set support_hash_algorithms"
  shows "(fs p = Some (sz, contents) \<longrightarrow>
            hash_file L fs p (Some (pre @ bad # post)) c = ([], Inl (unsupported bad))) \<and>
         (encode_utf8 str = Inr data \<longrightarrow>
            hash_text L str (Some (pre @ bad # post)) c = ([], Inl (unsupported bad)))"
  using validate_bad [OF assms]
  by (simp add: hash_file_def hash_text_def or_default_def unsupported_def)

theorem validation_short_circuit_witness:
  "hash_file example_hashlib [py ''f.txt'' \<mapsto> (1, [0x61])] (py ''f.txt'')
     (Some [py ''sha256'', py ''bogus'', py ''md5'']) 8 =
     ([], Inl (ValueError (py ''Unsupported hash_algorithm: bogus''))) \<and>
   hash_text example_hashlib (py ''abc'') (Some [py ''sha256'', py ''bogus'', py ''md5'']) 8 =
     ([], Inl (ValueError (py ''Unsupported hash_algorithm: bogus'')))"
  using validation_short_circuit [where pre = "[py ''sha256'']" and bad = "py ''bogus''"
      and post = "[py ''md5'']" and fs = "[py ''f.txt'' \<mapsto> (1, [0x61])]" and p = "py ''f.txt''"
      and sz = 1 and contents = "[0x61]" and str = "py ''abc''" and data = "[0x61, 0x62, 0x63]"
      and c = 8 and L = example_hashlib]
  by (simp add: witness_simps)

text \<open>
  The claim as stated, for every text: \<open>hash_text\<close> encodes the text before it validates
  the list, so for a text with a lone surrogate, here the one code point \<open>U+DCFF\<close>, the
  call with \<open>["sha256", "bogus", "md5"]\<close> raises \<open>UnicodeEncodeError\<close>, not the error
  naming \<open>bogus\<close>.
\<close>

theorem validation_short_circuit_counterexample:
  "hash_text example_hashlib [0xDCFF] (Some [py ''sha256'', py ''bogus'', py ''md5'']) 8 =
     ([], Inl (UnicodeEncodeError 0xDCFF)) \<and>
   snd (hash_text example_hashlib [0xDCFF] (Some [py ''sha256'', py ''bogus'', py ''md5'']) 8) \<noteq>
     Inl (unsupported (py ''bogus''))"
  by (simp add: hash_text_def witness_simps)

text \<open>
  C5, empty input. With a valid algorithm list, \<open>hash_text\<close> on the empty string (for any
  chunk size but 0) and \<open>hash_file\<close> on an empty file (for any chunk size from 0 up to
  the largest read size, below \<open>2^63\<close> octets) return, for each requested algorithm, the
  library's digest of the empty message. When the library's \<open>md5\<close> is MD5 on the empty
  message, the entry \<open>md5\<close> of the result is \<open>d41d8cd98f00b204e9800998ecf8427e\<close>.
\<close>

theorem empty_input_digests:
  assumes "set (or_default ha) \<subseteq> set support_hash_algorithms"
  shows "(c \<noteq> 0 \<longrightarrow>
            snd (hash_text L [] ha c) =
              Inr (map (\<lambda>k. (k, L k [])) (first_occurrences (or_default ha)))) \<and>
         (0 \<le> c \<and> c * 1024 * 1024 < 2 ^ 63 \<and> fs p = Some (sz, []) \<longrightarrow>
            snd (hash_file L fs p ha c) =
              Inr (map (\<lambda>k. (k, L k [])) (first_occurrences (or_default ha)))) \<and>
         (py ''md5'' \<in> set (or_default ha) \<and> L (py ''md5'') [] = md5_hexdigest [] \<longrightarrow>
            (c \<noteq> 0 \<longrightarrow>
               entry (py ''md5'') (snd (hash_text L [] ha c)) =
                 Inr (Some (py ''d41d8cd98f00b204e9800998ecf8427e''))) \<and>
            (0 \<le> c \<and> c * 1024 * 1024 < 2 ^ 63 \<and> fs p = Some (sz, []) \<longrightarrow>
               entry (py ''md5'') (snd (hash_file L fs p ha c)) =
                 Inr (Some (py ''d41d8cd98f00b204e9800998ecf8427e''))))"
proof -
  have v: "validate_hash_algorithms (or_default ha) = Inr (or_default ha)"
    using assms by (rule validate_ok)
  have t: "c \<noteq> 0 \<Longrightarrow> snd (hash_text L [] ha c) =
      Inr (map (\<lambda>k. (k, L k [])) (first_occurrences (or_default ha)))"
    by (simp add: hash_text_result v)
  have f: "snd (hash_file L fs p ha c) =
      Inr (map (\<lambda>k. (k, L k [])) (first_occurrences (or_default ha)))"
    if "0 \<le> c" and "c * 1024 * 1024 < 2 ^ 63" and "fs p = Some (sz, [])"
  proof -
    have r: "\<not> (c * 1024 * 1024 < - maxsize - 1 \<or> maxsize < c * 1024 * 1024)"
      using that(1,2) by (rule mb_in_range)
    show ?thesis
      unfolding hash_file_result using that(1,3) r by (simp add: v)
  qed
  show ?thesis
    using t f
    by (auto simp: entry_def map_of_digests md5_empty_message)
qed

theorem empty_input_digests_witness:
  "snd (hash_text example_hashlib [] None 8) =
     Inr [(py ''md5'', py ''d41d8cd98f00b204e9800998ecf8427e''), (py ''sha1'', py ''sha1:''),
          (py ''sha256'', py ''sha256:''), (py ''sha512'', py ''sha512:'')] \<and>
   entry (py ''md5'')
     (snd (hash_file example_hashlib [py ''empty'' \<mapsto> (0, [])] (py ''empty'') None 8)) =
     Inr (Some (py ''d41d8cd98f00b204e9800998ecf8427e''))"
  using empty_input_digests [where ha = None and c = 8 and L = example_hashlib
      and fs = "[py ''empty'' \<mapsto> (0, [])]" and p = "py ''empty''" and sz = 0]
  by (auto simp: witness_simps example_hashlib_def hex_def entry_def
      md5_empty_message [unfolded py_def])

text \<open>
  C6, result keys. Whenever \<open>hash_text\<close> or \<open>hash_file\<close> returns a mapping, its keys
  are the requested identifiers (the default four when none are given), each once, in
  the order of their first occurrence in the request. For a valid list the calls do
  return: \<open>hash_text\<close> for an encodable text and a chunk size other than 0, \<open>hash_file\<close>
  for an existing file and a chunk size from 0 up to the largest read size, below
  \<open>2^63\<close> octets.
\<close>

theorem result_keys:
  "(snd (hash_text L str ha c) = Inr d \<longrightarrow>
      map fst d = first_occurrences (or_default ha) \<and>
      map fst d = rev (remdups (rev (or_default ha))) \<and>
      set (map fst d) = set (or_default ha) \<and> distinct (map fst d)) \<and>
   (snd (hash_file L fs p ha c) = Inr d' \<longrightarrow>
      map fst d' = first_occurrences (or_default ha) \<and>
      map fst d' = rev (remdups (rev (or_default ha))) \<and>
      set (map fst d') = set (or_default ha) \<and> distinct (map fst d')) \<and>
   (set (or_default ha) \<subseteq> set support_hash_algorithms \<longrightarrow>
      (encode_utf8 str = Inr data \<and> c \<noteq> 0 \<longrightarrow> (\<exists>d. snd (hash_text L str ha c) = Inr d)) \<and>
      (fs p = Some (sz, contents) \<and> 0 \<le> c \<and> c * 1024 * 1024 < 2 ^ 63 \<longrightarrow>
         (\<exists>d. snd (hash_file L fs p ha c) = Inr d)))"
proof (intro conjI impI)
  assume r: "snd (hash_text L str ha c) = Inr d"
  then have k: "map fst d = first_occurrences (or_default ha)"
    by (auto simp: hash_text_result comp_def split: sum.splits if_splits dest: validate_Inr)
  then show "map fst d = first_occurrences (or_default ha)" .
  from k show "map fst d = rev (remdups (rev (or_default ha)))"
    by (simp add: first_occurrences_remdups)
  from k show "set (map fst d) = set (or_default ha)" by simp
  from k show "distinct (map fst d)" by simp
next
  assume r: "snd (hash_file L fs p ha c) = Inr d'"
  then have k: "map fst d' = first_occurrences (or_default ha)"
    unfolding hash_file_result
    by (auto simp: comp_def split: option.splits sum.splits if_splits prod.splits
        dest: validate_Inr)
  then show "map fst d' = first_occurrences (or_default ha)" .
  from k show "map fst d' = rev (remdups (rev (or_default ha)))"
    by (simp add: first_occurrences_remdups)
  from k show "set (map fst d') = set (or_default ha)" by simp
  from k show "distinct (map fst d')" by simp
next
  assume v: "set (or_default ha) \<subseteq> set support_hash_algorithms"
    and "encode_utf8 str = Inr data \<and> c \<noteq> 0"
  then show "\<exists>d. snd (hash_text L str ha c) = Inr d"
    by (simp add: hash_text_result validate_ok)
next
  assume v: "set (or_default ha) \<subseteq> set support_hash_algorithms"
    and h: "fs p = Some (sz, contents) \<and> 0 \<le> c \<and> c * 1024 * 1024 < 2 ^ 63"
  have r: "\<not> (c * 1024 * 1024 < - maxsize - 1 \<or> maxsize < c * 1024 * 1024)"
    using h by (intro mb_in_range) simp_all
  show "\<exists>d. snd (hash_file L fs p ha c) = Inr d"
    unfolding hash_file_result using v h r by (simp add: validate_ok)
qed

theorem result_keys_witness:
  "map fst (projr (snd (hash_text example_hashlib (py ''abc'')
      (Some [py ''sha256'', py ''md5'', py ''sha256'']) 8))) = [py ''sha256'', py ''md5'']"
  using result_keys [where str = "py ''abc''" and data = "[0x61, 0x62, 0x63]"
      and ha = "Some [py ''sha256'', py ''md5'', py ''sha256'']" and c = 8 and L = example_hashlib
      and fs = "[py ''f'' \<mapsto> (0, [])]" and p = "py ''f''" and sz = 0 and contents = "[]"
      and d = "projr (snd (hash_text example_hashlib (py ''abc'')
                 (Some [py ''sha256'', py ''md5'', py ''sha256'']) 8))"
      and d' = "projr (snd (hash_file example_hashlib [py ''f'' \<mapsto> (0, [])] (py ''f'')
                 (Some [py ''sha256'', py ''md5'', py ''sha256'']) 8))"]
  by (auto simp: witness_simps)

text \<open>
  C7, algorithm independence. For a list \<open>S\<close> of supported algorithms and an algorithm
  \<open>a\<close> of \<open>S\<close>, looking \<open>a\<close> up in what a call returns for \<open>S\<close> gives the same as
  looking it up in what the call returns for the default set, for \<open>hash_text\<close> and for
  \<open>hash_file\<close>, on every input (when the call raises, both raise the same exception).
  With a positive chunk size (for a file, below \<open>2^63\<close> octets) the entry is the
  library's digest of the input under \<open>a\<close>.
\<close>

theorem algorithm_independence:
  assumes "set S \<subseteq> set support_hash_algorithms" and "a \<in> set S"
  shows "entry a (snd (hash_text L str (Some S) c)) = entry a (snd (hash_text L str None c)) \<and>
         entry a (snd (hash_file L fs p (Some S) c)) = entry a (snd (hash_file L fs p None c)) \<and>
         (0 < c \<and> encode_utf8 str = Inr data \<longrightarrow>
            entry a (snd (hash_text L str (Some S) c)) = Inr (Some (L a data))) \<and>
         (0 < c \<and> c * 1024 * 1024 < 2 ^ 63 \<and> fs p = Some (sz, data) \<longrightarrow>
            entry a (snd (hash_file L fs p (Some S) c)) = Inr (Some (L a data)))"
proof -
  have vS: "validate_hash_algorithms S = Inr S" using assms(1) by (rule validate_ok)
  have a: "a \<in> set default_hash_algorithms"
    using assms by (auto simp: default_hash_algorithms_def)
  have r: "\<not> (c * 1024 * 1024 < - maxsize - 1 \<or> maxsize < c * 1024 * 1024)"
    if "0 < c" and "c * 1024 * 1024 < 2 ^ 63"
    using that by (intro mb_in_range) simp_all
  have t1: "entry a (snd (hash_text L str (Some S) c)) = entry a (snd (hash_text L str None c))"
    using assms(2) a
    by (simp add: hash_text_result or_default_def vS default_valid entry_def map_of_digests
        split: sum.splits)
  have f1: "entry a (snd (hash_file L fs p (Some S) c)) = entry a (snd (hash_file L fs p None c))"
    unfolding hash_file_result using assms(2) a
    by (simp add: or_default_def vS default_valid entry_def map_of_digests
        split: option.splits prod.splits)
  have t2: "entry a (snd (hash_text L str (Some S) c)) = Inr (Some (L a data))"
    if "0 < c" and "encode_utf8 str = Inr data"
    using that assms(2)
    by (simp add: hash_text_result or_default_def vS entry_def map_of_digests)
  have f2: "entry a (snd (hash_file L fs p (Some S) c)) = Inr (Some (L a data))"
    if "0 < c" and "c * 1024 * 1024 < 2 ^ 63" and "fs p = Some (sz, data)"
    unfolding hash_file_result using that(1,3) r [OF that(1,2)] assms(2)
    by (simp add: or_default_def vS entry_def map_of_digests)
  show ?thesis using t1 f1 t2 f2 by blast
qed

theorem algorithm_independence_witness:
  "entry (py ''sha1'') (snd (hash_text example_hashlib (py ''abc'') (Some [py ''sha1'']) 8)) =
   entry (py ''sha1'') (snd (hash_text example_hashlib (py ''abc'') None 8)) \<and>
   entry (py ''sha1'') (snd (hash_text example_hashlib (py ''abc'') (Some [py ''sha1'']) 8)) =
     Inr (Some (py ''sha1:616263'')) \<and>
   entry (py ''sha1'') (snd (hash_file example_hashlib [py ''f'' \<mapsto> (3, [0x61, 0x62, 0x63])]
     (py ''f'') (Some [py ''sha1'']) 8)) =
   entry (py ''sha1'') (snd (hash_file example_hashlib [py ''f'' \<mapsto> (3, [0x61, 0x62, 0x63])]
     (py ''f'') None 8)) \<and>
   entry (py ''sha1'') (snd (hash_file example_hashlib [py ''f'' \<mapsto> (3, [0x61, 0x62, 0x63])]
     (py ''f'') (Some [py ''sha1'']) 8)) = Inr (Some (py ''sha1:616263''))"
  using algorithm_independence [where S = "[py ''sha1'']" and a = "py ''sha1''"
      and str = "py ''abc''" and data = "[0x61, 0x62, 0x63]" and c = 8 and L = example_hashlib
      and fs = "[py ''f'' \<mapsto> (3, [0x61, 0x62, 0x63])]" and p = "py ''f''" and sz = 3]
  by (auto simp: witness_simps example_hashlib_def hex_def)

text \<open>
  C8, input not found. For a path that is not a regular file, \<open>hash_file\<close> raises
  \<open>FileNotFoundError\<close> with a message naming the path, whatever the algorithm list and
  chunk size; it returns no mapping, and the run has no event: no accumulator was
  created and nothing was opened or read.
\<close>

theorem input_not_found:
  assumes "fs p = None"
  shows "hash_file L fs p ha c = ([], Inl (FileNotFoundError (py ''Not found file_path: '' @ p)))"
  using assms by (simp add: hash_file_def)

theorem input_not_found_witness:
  "hash_file example_hashlib Map.empty (py ''missing.bin'') None 8 =
     ([], Inl (FileNotFoundError (py ''Not found file_path: missing.bin'')))"
  using input_not_found [where fs = Map.empty and p = "py ''missing.bin''"]
  by (simp add: witness_simps)

text \<open>
  C9, chunk size zero. With \<open>chunk_size_mb = 0\<close>, \<open>hash_file\<close> on an existing file with a
  valid algorithm list returns normally, each entry being the digest of the empty
  message whatever the file contains; its only read returns no octets and no
  accumulator is fed anything. \<open>hash_text\<close> with chunk size 0 raises \<open>ValueError\<close>
  instead, for every encodable text.
\<close>

theorem zero_chunk_size:
  assumes "fs p = Some (sz, contents)"
    and "set (or_default ha) \<subseteq> set support_hash_algorithms"
  shows "snd (hash_file L fs p ha 0) =
           Inr (map (\<lambda>k. (k, L k [])) (first_occurrences (or_default ha))) \<and>
         reads (fst (hash_file L fs p ha 0)) = [[]] \<and>
         fed a (fst (hash_file L fs p ha 0)) = [] \<and>
         (encode_utf8 str = Inr data \<longrightarrow>
            snd (hash_text L str ha 0) =
              Inl (ValueError (py ''range() arg 3 must not be zero'')))"
proof -
  have v: "validate_hash_algorithms (or_default ha) = Inr (or_default ha)"
    using assms(2) by (rule validate_ok)
  show ?thesis
    unfolding hash_file_run [where fs = fs and p = p, OF assms(1) v]
    by (simp add: hash_text_result v chunked.simps maxsize_def)
qed

theorem zero_chunk_size_witness:
  "snd (hash_file example_hashlib [py ''f'' \<mapsto> (3, [0x61, 0x62, 0x63])] (py ''f'')
     (Some [py ''sha1'']) 0) = Inr [(py ''sha1'', py ''sha1:'')] \<and>
   reads (fst (hash_file example_hashlib [py ''f'' \<mapsto> (3, [0x61, 0x62, 0x63])] (py ''f'')
     (Some [py ''sha1'']) 0)) = [[]] \<and>
   snd (hash_text example_hashlib (py ''abc'') (Some [py ''sha1'']) 0) =
     Inl (ValueError (py ''range() arg 3 must not be zero''))"
  using zero_chunk_size [where fs = "[py ''f'' \<mapsto> (3, [0x61, 0x62, 0x63])]" and p = "py ''f''"
      and sz = 3 and contents = "[0x61, 0x62, 0x63]" and ha = "Some [py ''sha1'']"
      and L = example_hashlib and str = "py ''abc''" and data = "[0x61, 0x62, 0x63]"]
  by (auto simp: witness_simps example_hashlib_def hex_def)

end
